theory Spec2Isabelle
  imports Main
begin

section \<open>Python strings and integers\<close>

text \<open>
  A Python \<open>str\<close> is modelled as a \<open>string\<close>: a list of 8-bit characters, each read as
  the code point of the same number. Among these code points the decimal digits (the
  characters the regular expression class for digits and \<open>int()\<close> accept) are
  \<open>0\<close> .. \<open>9\<close> only. Python integers are unbounded: \<open>int\<close>.
\<close>

datatype error =
    UnknownTimeZoneError   \<comment> \<open>pytz.exceptions.UnknownTimeZoneError\<close>
  | ValueError             \<comment> \<open>configparser's getboolean, int()\<close>
  | RegexError             \<comment> \<open>re.error: the pattern does not compile\<close>
  | IndexError             \<comment> \<open>match.group: no such group\<close>
  | OSError                \<comment> \<open>FileExistsError, NotADirectoryError, IsADirectoryError\<close>

definition backslash :: char where
  "backslash = CHR 0x5C"

definition newline :: char where
  "newline = CHR 0x0A"

definition is_digit :: "char \<Rightarrow> bool" where
  "is_digit c = (48 \<le> (of_char c :: nat) \<and> (of_char c :: nat) \<le> 57)"

definition digit_val :: "char \<Rightarrow> nat" where
  "digit_val c = of_char c - 48"

definition digit_char :: "nat \<Rightarrow> char" where
  "digit_char d = char_of (48 + d)"

text \<open>\<open>str(n)\<close> for a natural number: its decimal digits, most significant first.\<close>

function digits_of :: "nat \<Rightarrow> string" where
  "digits_of n = (if n < 10 then [digit_char n] else digits_of (n div 10) @ [digit_char (n mod 10)])"
  by pat_completeness auto
termination
  by (relation "measure (\<lambda>n. n)") auto

declare digits_of.simps [simp del]

text \<open>The text an f-string writes for an integer: \<open>f"{new_num}"\<close>.\<close>

definition str_int :: "int \<Rightarrow> string" where
  "str_int i = (if i < 0 then CHR ''-'' # digits_of (nat (- i)) else digits_of (nat i))"

text \<open>
  \<open>int(s)\<close> on a string. A non-empty string of digits is read in base ten (leading zeros
  allowed). Every other string is reported as \<open>ValueError\<close>; Python also accepts a sign,
  surrounding white space and underscores between digits, none of which a group of
  digits captured by the pattern can contain.
\<close>

definition py_int :: "string \<Rightarrow> error + int" where
  "py_int s =
     (if s \<noteq> [] \<and> list_all is_digit s
      then Inr (foldl (\<lambda>a c. 10 * a + int (digit_val c)) 0 s)
      else Inl ValueError)"

text \<open>\<open>sep.join(xs)\<close>.\<close>

fun py_join :: "string \<Rightarrow> string list \<Rightarrow> string" where
  "py_join sep [] = []"
| "py_join sep [x] = x"
| "py_join sep (x # y # ys) = x @ sep @ py_join sep (y # ys)"

text \<open>\<open>[s for s in xs if s]\<close>: the non-empty strings of a list.\<close>

definition non_empty :: "string list \<Rightarrow> string list" where
  "non_empty xs = filter (\<lambda>s. s \<noteq> []) xs"

text \<open>\<open>s.lstrip("0")\<close>: every leading 0 is removed.\<close>

definition lstrip0 :: "string \<Rightarrow> string" where
  "lstrip0 s = dropWhile (\<lambda>c. c = CHR ''0'') s"

text \<open>
  \<open>s.replace(old, new)\<close> for a non-empty \<open>old\<close>: the occurrences of \<open>old\<close> are found
  from the left, without overlap, and each is replaced. (For an empty \<open>old\<close> Python
  inserts \<open>new\<close> around every character; the source never calls it so, and the model
  returns the string unchanged.)
\<close>

function py_replace :: "string \<Rightarrow> string \<Rightarrow> string \<Rightarrow> string" where
  "py_replace old new s =
     (if old = [] \<or> s = [] then s
      else if take (length old) s = old then new @ py_replace old new (drop (length old) s)
      else hd s # py_replace old new (tl s))"
  by pat_completeness auto
termination
  by (relation "measure (\<lambda>(old, new, s). length s)") auto

declare py_replace.simps [simp del]

text \<open>\<open>s.lower()\<close> on ASCII letters.\<close>

definition lower_char :: "char \<Rightarrow> char" where
  "lower_char c =
     (if 65 \<le> (of_char c :: nat) \<and> (of_char c :: nat) \<le> 90 then char_of (of_char c + (32::nat)) else c)"

definition lower :: "string \<Rightarrow> string" where
  "lower s = map lower_char s"

section \<open>Dates and strftime\<close>

text \<open>
  A \<open>datetime\<close> as its calendar fields. \<open>strftime\<close> interprets the directives
  \<open>Y m d H I M S p b %\<close> (C locale), which cover the formats the source uses and
  documents. The other directives of the C library (such as \<open>y\<close>, \<open>B\<close>, \<open>j\<close>) are not
  modelled: the model copies them as they stand, as the library does only with those
  it does not know.
\<close>

record datetime =
  year :: nat
  month :: nat
  day :: nat
  hour :: nat
  minute :: nat
  second :: nat

definition pad2 :: "nat \<Rightarrow> string" where
  "pad2 n = (if n < 10 then CHR ''0'' # digits_of n else digits_of n)"

definition hour12 :: "nat \<Rightarrow> nat" where
  "hour12 h = (if h mod 12 = 0 then 12 else h mod 12)"

definition month_abbr :: "nat \<Rightarrow> string" where
  "month_abbr m =
     (if m = 1 then ''Jan'' else if m = 2 then ''Feb'' else if m = 3 then ''Mar''
      else if m = 4 then ''Apr'' else if m = 5 then ''May'' else if m = 6 then ''Jun''
      else if m = 7 then ''Jul'' else if m = 8 then ''Aug'' else if m = 9 then ''Sep''
      else if m = 10 then ''Oct'' else if m = 11 then ''Nov'' else ''Dec'')"

definition directive :: "datetime \<Rightarrow> char \<Rightarrow> string" where
  "directive dt c =
     (if c = CHR ''Y'' then digits_of (year dt)
      else if c = CHR ''m'' then pad2 (month dt)
      else if c = CHR ''d'' then pad2 (day dt)
      else if c = CHR ''H'' then pad2 (hour dt)
      else if c = CHR ''I'' then pad2 (hour12 (hour dt))
      else if c = CHR ''M'' then pad2 (minute dt)
      else if c = CHR ''S'' then pad2 (second dt)
      else if c = CHR ''p'' then (if hour dt < 12 then ''AM'' else ''PM'')
      else if c = CHR ''b'' then month_abbr (month dt)
      else if c = CHR ''%'' then ''%''
      else [CHR ''%'', c])"

fun strftime :: "datetime \<Rightarrow> string \<Rightarrow> string" where
  "strftime dt [] = []"
| "strftime dt [c] = [c]"
| "strftime dt (c # d # cs) =
     (if c = CHR ''%'' then directive dt d @ strftime dt cs else c # strftime dt (d # cs))"

section \<open>Paths and the file system\<close>

text \<open>
  A path is the list of its components below the root. \<open>parts\<close> reads a name as
  pathlib does: it is cut at every slash, and empty components and \<open>.\<close> are dropped.
  \<open>joinpath p s\<close> is \<open>p / s\<close>: a name that starts with a slash is absolute and
  replaces \<open>p\<close>. The component \<open>..\<close>, symbolic links, permissions and limits on the
  length of a name are not modelled.
\<close>

type_synonym path = "string list"

fun split_slash :: "string \<Rightarrow> string list" where
  "split_slash [] = [[]]"
| "split_slash (c # cs) =
     (if c = CHR ''/'' then [] # split_slash cs
      else (case split_slash cs of [] \<Rightarrow> [[c]] | x # xs \<Rightarrow> (c # x) # xs))"

definition parts :: "string \<Rightarrow> path" where
  "parts s = filter (\<lambda>c. c \<noteq> [] \<and> c \<noteq> ''.'') (split_slash s)"

definition joinpath :: "path \<Rightarrow> string \<Rightarrow> path" where
  "joinpath p s = (if take 1 s = ''/'' then parts s else p @ parts s)"

text \<open>\<open>p.name\<close> and \<open>str(p.absolute())\<close>.\<close>

definition path_name :: "path \<Rightarrow> string" where
  "path_name p = (if p = [] then [] else last p)"

definition path_str :: "path \<Rightarrow> string" where
  "path_str p = (if p = [] then ''/'' else concat (map (\<lambda>c. CHR ''/'' # c) p))"

text \<open>
  The state of the file system: the directories that exist (the root always does) and
  the files, each with the rows written to it (a row of the log is the list of its
  fields, as \<open>csv.writer.writerow\<close> receives it).
\<close>

record fs =
  dirs :: "path list"
  files :: "path \<Rightarrow> string list list option"

definition is_dir :: "fs \<Rightarrow> path \<Rightarrow> bool" where
  "is_dir s p = (p = [] \<or> p \<in> set (dirs s))"

definition is_file :: "fs \<Rightarrow> path \<Rightarrow> bool" where
  "is_file s p = (files s p \<noteq> None)"

definition path_exists :: "fs \<Rightarrow> path \<Rightarrow> bool" where
  "path_exists s p = (is_dir s p \<or> is_file s p)"

text \<open>The path itself and the directories above it, the nearest to the root first.\<close>

definition ancestors_self :: "path \<Rightarrow> path list" where
  "ancestors_self p = map (\<lambda>n. take n p) [1 ..< Suc (length p)]"

text \<open>
  \<open>p.mkdir(parents=True, exist_ok=True)\<close>: nothing happens when \<open>p\<close> is a directory;
  it fails when \<open>p\<close> or a path above it is a file; otherwise \<open>p\<close> and the missing
  directories above it are created. Names the operating system refuses (a name that
  holds the character 0) are not modelled.
\<close>

definition mkdir_p :: "path \<Rightarrow> fs \<Rightarrow> error + fs" where
  "mkdir_p p s =
     (if is_dir s p then Inr s
      else if list_ex (is_file s) (ancestors_self p) then Inl OSError
      else Inr (s\<lparr>dirs := dirs s @ filter (\<lambda>q. \<not> is_dir s q) (ancestors_self p)\<rparr>))"

text \<open>\<open>[d.name for d in parent_path.iterdir() if d.is_dir()]\<close>.\<close>

definition subdir_names :: "fs \<Rightarrow> path \<Rightarrow> string list" where
  "subdir_names s parent = map last (filter (\<lambda>q. q \<noteq> [] \<and> butlast q = parent) (dirs s))"

section \<open>The environment of a call\<close>

text \<open>
  The result of \<open>re.match(pattern, name)\<close>: the pattern does not compile, the name does
  not match, or a match object with its groups 1, 2, ... (\<open>None\<close> for a group that took
  no part in the match).
\<close>

datatype re_result = ReError | NoMatch | Match "string option list"

text \<open>
  What a call reads from outside the program: the settings file as configparser returns
  it (the options of its section \<open>smartdirs\<close>, if the file and the section exist), the
  time zone database of pytz, the local zone, the clock, the regular expression engine,
  and the resolution of a path string against the working and home directories. The
  clock is read once in a call: the name and the log entry of a call see the same time.
\<close>

record 'tz world =
  ini_section :: "string option \<Rightarrow> (string \<Rightarrow> string option) option"
  pytz_timezone :: "string \<Rightarrow> 'tz option"
  get_localzone :: "'tz"
  now :: "'tz \<Rightarrow> datetime"
  re_match :: "string \<Rightarrow> string \<Rightarrow> re_result"
  abspath :: "string \<Rightarrow> path"
  expanduser :: "string \<Rightarrow> path"

section \<open>load_config\<close>

text \<open>
  The settings are read through \<open>ini_section\<close>; the only failure modelled is the one of
  \<open>getboolean\<close> on a value that is not a boolean. The errors configparser raises on a
  file it cannot parse or on a value it cannot interpolate are not modelled.
\<close>

record config =
  config_timezone :: "string option"
  time_format_with_seconds :: bool
  log_dir :: "string option"

definition default_config :: config where
  "default_config = \<lparr>config_timezone = None, time_format_with_seconds = False, log_dir = None\<rparr>"

definition getboolean :: "(string \<Rightarrow> string option) \<Rightarrow> string \<Rightarrow> bool \<Rightarrow> error + bool" where
  "getboolean sec k fallback =
     (case sec k of
        None \<Rightarrow> Inr fallback
      | Some v \<Rightarrow>
          if lower v \<in> set [''1'', ''yes'', ''true'', ''on''] then Inr True
          else if lower v \<in> set [''0'', ''no'', ''false'', ''off''] then Inr False
          else Inl ValueError)"

definition load_config :: "'tz world \<Rightarrow> string option \<Rightarrow> error + config" where
  "load_config w config_file =
     (case ini_section w config_file of
        None \<Rightarrow> Inr default_config
      | Some sec \<Rightarrow>
          (case getboolean sec ''time_format_with_seconds'' False of
             Inl e \<Rightarrow> Inl e
           | Inr b \<Rightarrow>
               Inr \<lparr>config_timezone = sec ''timezone'',
                    time_format_with_seconds = b,
                    log_dir = sec ''log_dir''\<rparr>))"

section \<open>log_directory\<close>

text \<open>Python's truth value of an optional string: \<open>None\<close> and the empty string are false.\<close>

definition truthy :: "string option \<Rightarrow> bool" where
  "truthy x = (case x of None \<Rightarrow> False | Some s \<Rightarrow> s \<noteq> [])"

definition text_of :: "string option \<Rightarrow> string" where
  "text_of x = (case x of None \<Rightarrow> [] | Some s \<Rightarrow> s)"

definition headers :: "string list" where
  "headers = [''Date'', ''Directory'', ''Path'']"

definition creation_time :: "datetime \<Rightarrow> string" where
  "creation_time dt = py_replace '' 0'' '' '' (strftime dt ''%b %d, %Y at %I:%M %p'')"

text \<open>
  The result is the error raised, if any, and the file system as the call leaves it.
  Opening the log for appending fails when a directory stands at its path.
\<close>

definition log_directory :: "'tz world \<Rightarrow> string option \<Rightarrow> path \<Rightarrow> 'tz \<Rightarrow> fs \<Rightarrow> error option \<times> fs" where
  "log_directory w ld dir_path tz s =
     (if \<not> truthy ld then (None, s)
      else
        let log_path = expanduser w (text_of ld) in
        case mkdir_p log_path s of
          Inl e \<Rightarrow> (Some e, s)
        | Inr s1 \<Rightarrow>
            let log_file = log_path @ [''smartdirs.log''];
                row = [creation_time (now w tz), path_name dir_path, path_str dir_path];
                file_exists = path_exists s1 log_file
            in if is_dir s1 log_file then (Some OSError, s1)
               else
                 (None,
                  s1\<lparr>files := (files s1)(log_file \<mapsto>
                     (case files s1 log_file of None \<Rightarrow> [] | Some rows \<Rightarrow> rows)
                     @ (if file_exists then [] else [headers]) @ [row])\<rparr>))"

section \<open>create_dir\<close>

record request =
  base_name :: string
  parent_dir :: string
  use_date :: bool
  use_time :: bool
  date_format :: string
  time_format :: "string option"
  timezone :: "string option"
  config_file :: "string option"
  prefix :: bool
  suffix :: bool
  separator :: string

text \<open>The defaults of the parameters of \<open>create_dir\<close>.\<close>

definition default_request :: "string \<Rightarrow> request" where
  "default_request b =
     \<lparr>base_name = b, parent_dir = ''.'', use_date = False, use_time = False,
      date_format = ''%Y-%m-%d'', time_format = None, timezone = None, config_file = None,
      prefix = True, suffix = False, separator = ''-''\<rparr>"

text \<open>Set timezone: the argument, else the configuration, else the local zone.\<close>

definition lookup_timezone :: "'tz world \<Rightarrow> string \<Rightarrow> error + 'tz" where
  "lookup_timezone w n =
     (case pytz_timezone w n of None \<Rightarrow> Inl UnknownTimeZoneError | Some z \<Rightarrow> Inr z)"

definition set_timezone :: "'tz world \<Rightarrow> string option \<Rightarrow> config \<Rightarrow> error + 'tz" where
  "set_timezone w tzname cfg =
     (if truthy tzname then lookup_timezone w (text_of tzname)
      else if truthy (config_timezone cfg) then lookup_timezone w (text_of (config_timezone cfg))
      else Inr (get_localzone w))"

definition set_time_format :: "string option \<Rightarrow> config \<Rightarrow> string" where
  "set_time_format tf cfg =
     (case tf of
        None \<Rightarrow> if time_format_with_seconds cfg then ''%I:%M:%S%p'' else ''%I:%M%p''
      | Some f \<Rightarrow> f)"

text \<open>Prepare timestamp if needed.\<close>

definition time_str :: "datetime \<Rightarrow> string \<Rightarrow> string" where
  "time_str dt tf = lstrip0 (strftime dt tf)"

definition timestamp :: "datetime \<Rightarrow> request \<Rightarrow> string \<Rightarrow> string" where
  "timestamp dt r tf =
     (if use_date r \<or> use_time r
      then py_join (separator r)
             (non_empty [if use_date r then strftime dt (date_format r) else [],
                         if use_time r then time_str dt tf else []])
      else [])"

definition dir_base :: "datetime \<Rightarrow> request \<Rightarrow> string \<Rightarrow> string" where
  "dir_base dt r tf = py_join (separator r) (non_empty [base_name r, timestamp dt r tf])"

text \<open>
  \<open>re.escape\<close>: a backslash before each of the characters that the module lists as
  special.
\<close>

definition special_chars :: "char list" where
  "special_chars =
     ''()[]{}?*+-|^$'' @ [backslash] @ ''.&~# '' @
     [CHR 0x09, CHR 0x0A, CHR 0x0D, CHR 0x0B, CHR 0x0C]"

definition re_escape :: "string \<Rightarrow> string" where
  "re_escape s = concat (map (\<lambda>c. if c \<in> set special_chars then [backslash, c] else [c]) s)"

text \<open>
  The pattern, as the source writes it: the separator is inserted as it is, the
  directory base through \<open>re.escape\<close>.
\<close>

definition pattern :: "string \<Rightarrow> string \<Rightarrow> string" where
  "pattern sep base =
     ''^(?:('' @ [backslash] @ ''d+)'' @ sep @ '')?'' @ re_escape base @
     ''(?:'' @ sep @ ''('' @ [backslash] @ ''d+))?$''"

text \<open>\<open>match.group(i)\<close> and \<open>int(match.group(i) or 0)\<close>.\<close>

definition group :: "string option list \<Rightarrow> nat \<Rightarrow> error + string option" where
  "group gs i = (if 1 \<le> i \<and> i \<le> length gs then Inr (gs ! (i - 1)) else Inl IndexError)"

definition group_num :: "string option list \<Rightarrow> nat \<Rightarrow> error + int" where
  "group_num gs i =
     (case group gs i of
        Inl e \<Rightarrow> Inl e
      | Inr g \<Rightarrow> if truthy g then py_int (text_of g) else Inr 0)"

text \<open>
  The loop over the existing directories, with the running maxima
  \<open>(max_prefix, max_suffix)\<close>.
\<close>

fun scan_dirs :: "(string \<Rightarrow> re_result) \<Rightarrow> string list \<Rightarrow> int \<times> int \<Rightarrow> error + int \<times> int" where
  "scan_dirs m [] acc = Inr acc"
| "scan_dirs m (dir_name # rest) (max_prefix, max_suffix) =
     (case m dir_name of
        ReError \<Rightarrow> Inl RegexError
      | NoMatch \<Rightarrow> scan_dirs m rest (max_prefix, max_suffix)
      | Match gs \<Rightarrow>
          (case group_num gs 1 of
             Inl e \<Rightarrow> Inl e
           | Inr prefix_num \<Rightarrow>
               (case group_num gs 2 of
                  Inl e \<Rightarrow> Inl e
                | Inr suffix_num \<Rightarrow>
                    scan_dirs m rest (max max_prefix prefix_num, max max_suffix suffix_num))))"

text \<open>
  The numbers observed, in the words of the specification: those that the loop reads
  from group \<open>i\<close> of the existing names that match (1 for the prefix, 2 for the suffix).
\<close>

definition observed :: "(string \<Rightarrow> re_result) \<Rightarrow> string list \<Rightarrow> nat \<Rightarrow> int list" where
  "observed m ds i =
     concat (map (\<lambda>d. case m d of
                          Match gs \<Rightarrow> (case group_num gs i of Inl e \<Rightarrow> [] | Inr k \<Rightarrow> [k])
                        | _ \<Rightarrow> []) ds)"

text \<open>
  Decide on new directory name: the number chosen, if the name carries one, and the
  name.
\<close>

definition decide_name :: "bool \<Rightarrow> bool \<Rightarrow> string \<Rightarrow> string \<Rightarrow> int \<times> int \<Rightarrow> int option \<times> string" where
  "decide_name pre suf sep base mx =
     (if pre \<and> \<not> suf then
        (let new_num = fst mx + 1 in (Some new_num, str_int new_num @ sep @ base))
      else if suf \<and> \<not> pre then
        (let new_num = snd mx + 1 in (Some new_num, base @ sep @ str_int new_num))
      else if pre \<and> suf then
        (let new_num = max (fst mx) (snd mx) + 1
         in (Some new_num, str_int new_num @ sep @ base @ sep @ str_int new_num))
      else (None, base))"

definition new_dir_name :: "bool \<Rightarrow> bool \<Rightarrow> string \<Rightarrow> string \<Rightarrow> int \<times> int \<Rightarrow> string" where
  "new_dir_name pre suf sep base mx = snd (decide_name pre suf sep base mx)"

text \<open>
  The whole call. The result is the path returned or the error raised, and the file
  system as the call leaves it.
\<close>

definition create_dir :: "'tz world \<Rightarrow> request \<Rightarrow> fs \<Rightarrow> (error + path) \<times> fs" where
  "create_dir w r s =
     (case load_config w (config_file r) of
        Inl e \<Rightarrow> (Inl e, s)
      | Inr cfg \<Rightarrow>
     (case set_timezone w (timezone r) cfg of
        Inl e \<Rightarrow> (Inl e, s)
      | Inr tz \<Rightarrow>
     (let tf = set_time_format (time_format r) cfg;
          parent_path = abspath w (parent_dir r)
      in case mkdir_p parent_path s of
        Inl e \<Rightarrow> (Inl e, s)
      | Inr s1 \<Rightarrow>
     (let base = dir_base (now w tz) r tf;
          existing_dirs = subdir_names s1 parent_path
      in case scan_dirs (re_match w (pattern (separator r) base)) existing_dirs (0, 0) of
        Inl e \<Rightarrow> (Inl e, s1)
      | Inr mx \<Rightarrow>
     (let new_dir_path =
            joinpath parent_path (new_dir_name (prefix r) (suffix r) (separator r) base mx)
      in case mkdir_p new_dir_path s1 of
        Inl e \<Rightarrow> (Inl e, s1)
      | Inr s2 \<Rightarrow>
     (case log_directory w (log_dir cfg) new_dir_path tz s2 of
        (Some e, s3) \<Rightarrow> (Inl e, s3)
      | (None, s3) \<Rightarrow> (Inr new_dir_path, s3)))))))"

section \<open>The regular expression engine on the patterns of create_dir\<close>

text \<open>
  A model of \<open>re.match\<close> on the part of the syntax that the pattern of \<open>create_dir\<close>
  uses: ordinary characters, escaped characters, the digit class, the dot, the two
  anchors, capturing and non-capturing groups, the greedy \<open>?\<close> on a character or a
  group and the greedy \<open>+\<close> on a character. \<open>compile_re\<close> returns \<open>None\<close> on a pattern
  that Python refuses and also on one outside this part (alternation, character sets,
  braces, the star, lazy and nested repetition, other escapes).
\<close>

datatype cclass = CLit char | CAny | CDigit

fun cc_ok :: "cclass \<Rightarrow> char \<Rightarrow> bool" where
  "cc_ok (CLit a) c = (c = a)"
| "cc_ok CAny c = (c \<noteq> newline)"
| "cc_ok CDigit c = is_digit c"

datatype re =
    One cclass
  | Plus cclass
  | Bol
  | Eol
  | Group "nat option" "re list"
  | Opt re

definition is_alnum :: "char \<Rightarrow> bool" where
  "is_alnum c =
     (let n = (of_char c :: nat)
      in (48 \<le> n \<and> n \<le> 57) \<or> (65 \<le> n \<and> n \<le> 90) \<or> (97 \<le> n \<and> n \<le> 122))"

fun optional_ok :: "re \<Rightarrow> bool" where
  "optional_ok (One k) = True"
| "optional_ok (Group g rs) = True"
| "optional_ok r = False"

text \<open>
  The parser reads the pattern from the left. \<open>stack\<close> holds, for every group that is
  open, its number (\<open>None\<close> for a non-capturing group) and the items read before it,
  \<open>cur\<close> the items of the innermost open group (the last read first), \<open>n\<close> the number
  of the next capturing group.
\<close>

function parse_re :: "string \<Rightarrow> (nat option \<times> re list) list \<Rightarrow> re list \<Rightarrow> nat \<Rightarrow> (re list \<times> nat) option" where
  "parse_re [] stack cur n = (if stack = [] then Some (rev cur, n) else None)"
| "parse_re (c # cs) stack cur n =
     (if c = CHR ''('' then
        (if take 2 cs = ''?:'' then parse_re (drop 2 cs) ((None, cur) # stack) [] n
         else if take 1 cs = ''?'' then None
         else parse_re cs ((Some n, cur) # stack) [] (Suc n))
      else if c = CHR '')'' then
        (case stack of
           [] \<Rightarrow> None
         | (g, outer) # st \<Rightarrow> parse_re cs st (Group g (rev cur) # outer) n)
      else if c = CHR ''?'' then
        (case cur of
           [] \<Rightarrow> None
         | x # xs \<Rightarrow> if optional_ok x then parse_re cs stack (Opt x # xs) n else None)
      else if c = CHR ''+'' then
        (case cur of
           One k # xs \<Rightarrow> parse_re cs stack (Plus k # xs) n
         | _ \<Rightarrow> None)
      else if c = backslash then
        (case cs of
           [] \<Rightarrow> None
         | d # ds \<Rightarrow>
             if d = CHR ''d'' then parse_re ds stack (One CDigit # cur) n
             else if is_alnum d then None
             else parse_re ds stack (One (CLit d) # cur) n)
      else if c = CHR ''.'' then parse_re cs stack (One CAny # cur) n
      else if c = CHR ''^'' then parse_re cs stack (Bol # cur) n
      else if c = CHR ''$'' then parse_re cs stack (Eol # cur) n
      else if c \<in> set ''*|[{'' then None
      else parse_re cs stack (One (CLit c) # cur) n)"
  by pat_completeness auto
termination
  by (relation "measure (\<lambda>(cs, stack, cur, n). length cs)") auto

definition compile_re :: "string \<Rightarrow> (re list \<times> nat) option" where
  "compile_re pat = parse_re pat [] [] 1"

text \<open>
  Matching, with backtracking in the order of Python's engine: a greedy item takes the
  most it can first and gives back one character at a time; an optional item is tried
  before it is skipped. \<open>w\<close> is the whole name, \<open>s\<close> what is left of it, \<open>caps\<close> the text
  of the groups closed so far, \<open>cont\<close> the rest of the match.
\<close>

fun try_down :: "nat \<Rightarrow> (nat \<Rightarrow> 'a option) \<Rightarrow> 'a option" where
  "try_down 0 f = None"
| "try_down (Suc j) f = (case f (Suc j) of Some x \<Rightarrow> Some x | None \<Rightarrow> try_down j f)"

fun m_re :: "string \<Rightarrow> re \<Rightarrow> string \<Rightarrow> (nat \<Rightarrow> string option) \<Rightarrow>
      (string \<Rightarrow> (nat \<Rightarrow> string option) \<Rightarrow> 'a option) \<Rightarrow> 'a option"
  and m_seq :: "string \<Rightarrow> re list \<Rightarrow> string \<Rightarrow> (nat \<Rightarrow> string option) \<Rightarrow>
      (string \<Rightarrow> (nat \<Rightarrow> string option) \<Rightarrow> 'a option) \<Rightarrow> 'a option" where
  "m_re w (One k) s caps cont =
     (case s of [] \<Rightarrow> None | c # cs \<Rightarrow> if cc_ok k c then cont cs caps else None)"
| "m_re w (Plus k) s caps cont =
     try_down (length (takeWhile (cc_ok k) s)) (\<lambda>j. cont (drop j s) caps)"
| "m_re w Bol s caps cont = (if length s = length w then cont s caps else None)"
| "m_re w Eol s caps cont = (if s = [] \<or> s = [newline] then cont s caps else None)"
| "m_re w (Group g rs) s caps cont =
     m_seq w rs s caps
       (\<lambda>s' caps'. cont s'
          (case g of None \<Rightarrow> caps' | Some i \<Rightarrow> caps'(i \<mapsto> take (length s - length s') s)))"
| "m_re w (Opt r) s caps cont =
     (case m_re w r s caps cont of Some x \<Rightarrow> Some x | None \<Rightarrow> cont s caps)"
| "m_seq w [] s caps cont = cont s caps"
| "m_seq w (r # rs) s caps cont = m_re w r s caps (\<lambda>s' caps'. m_seq w rs s' caps' cont)"

definition py_re_match :: "string \<Rightarrow> string \<Rightarrow> re_result" where
  "py_re_match pat name =
     (case compile_re pat of
        None \<Rightarrow> ReError
      | Some (rs, n) \<Rightarrow>
          (case m_seq name rs name Map.empty (\<lambda>s caps. Some caps) of
             None \<Rightarrow> NoMatch
           | Some caps \<Rightarrow> Match (map caps [1 ..< n])))"

section \<open>Concrete environments\<close>

text \<open>
  An environment in which the properties below are exercised: no settings file, two
  known time zones, a clock that reads 7 May 2025, 8:08:05, the engine above, and paths
  resolved against the root.
\<close>

definition may_7 :: datetime where
  "may_7 = \<lparr>year = 2025, month = 5, day = 7, hour = 8, minute = 8, second = 5\<rparr>"

definition example_world :: "string world" where
  "example_world =
     \<lparr>ini_section = (\<lambda>f. None),
      pytz_timezone = (\<lambda>n. if n = ''UTC'' \<or> n = ''America/New_York'' then Some n else None),
      get_localzone = ''UTC'',
      now = (\<lambda>z. may_7),
      re_match = py_re_match,
      abspath = parts,
      expanduser = parts\<rparr>"

text \<open>The same with a settings file that names a log directory.\<close>

definition logging_world :: "string world" where
  "logging_world = example_world\<lparr>ini_section := (\<lambda>f. Some [''log_dir'' \<mapsto> ''/var/log/smartdirs''])\<rparr>"

definition empty_fs :: fs where
  "empty_fs = \<lparr>dirs = [], files = (\<lambda>p. None)\<rparr>"

text \<open>A root directory that holds three directories and no file.\<close>

definition sample_fs :: fs where
  "sample_fs = \<lparr>dirs = [[''3-data-2''], [''data-5''], [''notes'']], files = (\<lambda>p. None)\<rparr>"

section \<open>Properties of the time zone choice\<close>

lemma dir_base_timezone_upd: "dir_base dt (r\<lparr>timezone := x\<rparr>) tf = dir_base dt r tf"
  by (simp add: dir_base_def timestamp_def cong: if_cong)

lemma set_timezone_empty: "set_timezone w (Some []) cfg = set_timezone w None cfg"
  by (simp add: set_timezone_def truthy_def)

text \<open>
  C9. A call whose \<open>timezone\<close> argument is the empty string does what the call without
  that argument does: the two calls return the same result and leave the same file
  system. The zone is then the one of the configuration when it names one, else the
  local zone; the empty string itself is never looked up.
\<close>

theorem empty_timezone_is_absent:
  "create_dir w (r\<lparr>timezone := Some []\<rparr>) s = create_dir w (r\<lparr>timezone := None\<rparr>) s
   \<and> set_timezone w (Some []) cfg =
       (if truthy (config_timezone cfg) then lookup_timezone w (text_of (config_timezone cfg))
        else Inr (get_localzone w))"
proof
  show "create_dir w (r\<lparr>timezone := Some []\<rparr>) s = create_dir w (r\<lparr>timezone := None\<rparr>) s"
    unfolding create_dir_def
    by (simp add: set_timezone_empty dir_base_timezone_upd Let_def cong: sum.case_cong)
  show "set_timezone w (Some []) cfg =
     (if truthy (config_timezone cfg) then lookup_timezone w (text_of (config_timezone cfg))
      else Inr (get_localzone w))"
    by (simp add: set_timezone_def truthy_def)
qed

theorem empty_timezone_is_absent_witness:
  "create_dir example_world ((default_request ''data'')\<lparr>timezone := Some []\<rparr>) empty_fs
     = create_dir example_world ((default_request ''data'')\<lparr>timezone := None\<rparr>) empty_fs
   \<and> fst (create_dir example_world ((default_request ''data'')\<lparr>timezone := Some []\<rparr>) empty_fs)
     = Inr [''1-data'']
   \<and> pytz_timezone example_world [] = None"
proof -
  have "fst (create_dir example_world ((default_request ''data'')\<lparr>timezone := Some []\<rparr>) empty_fs)
     = Inr [''1-data'']" by code_simp
  moreover have "pytz_timezone example_world [] = None" by code_simp
  ultimately show ?thesis
    using empty_timezone_is_absent [of example_world "default_request ''data''" empty_fs default_config]
    by simp
qed

section \<open>Properties of the decimal digits and of the time string\<close>

lemma of_char_digit_char: "d < 10 \<Longrightarrow> (of_char (digit_char d) :: nat) = 48 + d"
  by (simp add: digit_char_def)

lemma is_digit_digit_char: "d < 10 \<Longrightarrow> is_digit (digit_char d)"
  by (simp add: is_digit_def of_char_digit_char)

lemma digit_char_neq: "d < 10 \<Longrightarrow> (of_char c :: nat) \<noteq> 48 + d \<Longrightarrow> digit_char d \<noteq> c"
  using of_char_digit_char by blast

lemma digit_char_not_zero: "0 < d \<Longrightarrow> d < 10 \<Longrightarrow> digit_char d \<noteq> CHR ''0''"
  by (rule digit_char_neq) simp_all

lemma digit_char_not_space: "d < 10 \<Longrightarrow> digit_char d \<noteq> CHR '' ''"
  by (rule digit_char_neq) simp_all

lemma digits_of_small: "n < 10 \<Longrightarrow> digits_of n = [digit_char n]"
  by (subst digits_of.simps) simp

lemma digits_of_big: "\<not> n < 10 \<Longrightarrow> digits_of n = digits_of (n div 10) @ [digit_char (n mod 10)]"
  by (subst digits_of.simps) simp

lemma digits_of_nonempty: "digits_of n \<noteq> []"
  by (cases "n < 10") (simp_all add: digits_of_small digits_of_big)

lemma digits_of_hd: "0 < n \<Longrightarrow> hd (digits_of n) \<noteq> CHR ''0''"
proof (induction n rule: digits_of.induct)
  case (1 n)
  show ?case
  proof (cases "n < 10")
    case True
    with "1.prems" show ?thesis
      by (simp add: digits_of_small digit_char_not_zero)
  next
    case False
    then have "0 < n div 10" by simp
    with 1 False have "hd (digits_of (n div 10)) \<noteq> CHR ''0''" by blast
    with False show ?thesis
      by (simp add: digits_of_big digits_of_nonempty)
  qed
qed

lemma digits_of_all_digits: "list_all is_digit (digits_of n)"
proof (induction n rule: digits_of.induct)
  case (1 n)
  show ?case
  proof (cases "n < 10")
    case True
    then show ?thesis by (simp add: digits_of_small is_digit_digit_char)
  next
    case False
    with 1 have "list_all is_digit (digits_of (n div 10))" by blast
    with False show ?thesis
      by (simp add: digits_of_big is_digit_digit_char)
  qed
qed

lemma lstrip0_digits: "0 < n \<Longrightarrow> lstrip0 (digits_of n @ rest) = digits_of n @ rest"
  using digits_of_hd [of n] digits_of_nonempty [of n]
  by (cases "digits_of n") (simp_all add: lstrip0_def)

lemma lstrip0_pad2: "0 < n \<Longrightarrow> lstrip0 (pad2 n @ rest) = digits_of n @ rest"
  using lstrip0_digits [of n rest] by (simp add: pad2_def lstrip0_def)

lemma hour12_pos: "0 < hour12 h"
  by (simp add: hour12_def)

lemma dropWhile_replicate: "\<exists>k. s = replicate k c @ dropWhile (\<lambda>x. x = c) s"
proof (induction s)
  case Nil
  show ?case by simp
next
  case (Cons a s)
  then obtain k where k: "s = replicate k c @ dropWhile (\<lambda>x. x = c) s" by blast
  show ?case
  proof (cases "a = c")
    case True
    with k have "a # s = replicate (Suc k) c @ dropWhile (\<lambda>x. x = c) (a # s)" by simp
    then show ?thesis by blast
  next
    case False
    then have "a # s = replicate 0 c @ dropWhile (\<lambda>x. x = c) (a # s)" by simp
    then show ?thesis by blast
  qed
qed

lemma dropWhile_take1: "take 1 (dropWhile (\<lambda>x. x = c) s) \<noteq> [c]"
  by (induction s) auto

text \<open>
  What the code computes: the time string is the formatted time without any of its
  leading zeros. The formatted time is some zeros followed by the time string, and the
  time string does not start with a zero. With the two default formats the hour is
  between 01 and 12, so what is removed is the one zero that pads the hours 1 to 9.
\<close>

lemma time_str_strips_every_leading_zero:
  "(\<exists>k. strftime dt tf = replicate k CHR ''0'' @ time_str dt tf)
   \<and> take 1 (time_str dt tf) \<noteq> ''0''
   \<and> time_str dt ''%I:%M%p'' =
       digits_of (hour12 (hour dt)) @ '':'' @ pad2 (minute dt) @ (if hour dt < 12 then ''AM'' else ''PM'')
   \<and> time_str dt ''%I:%M:%S%p'' =
       digits_of (hour12 (hour dt)) @ '':'' @ pad2 (minute dt) @ '':'' @ pad2 (second dt)
         @ (if hour dt < 12 then ''AM'' else ''PM'')"
proof (intro conjI)
  show "\<exists>k. strftime dt tf = replicate k CHR ''0'' @ time_str dt tf"
    unfolding time_str_def lstrip0_def by (rule dropWhile_replicate)
  show "take 1 (time_str dt tf) \<noteq> ''0''"
    unfolding time_str_def lstrip0_def by (rule dropWhile_take1)
  have a: "strftime dt ''%I:%M%p'' =
      pad2 (hour12 (hour dt)) @ '':'' @ pad2 (minute dt) @ (if hour dt < 12 then ''AM'' else ''PM'')"
    by (simp add: directive_def)
  show "time_str dt ''%I:%M%p'' =
       digits_of (hour12 (hour dt)) @ '':'' @ pad2 (minute dt) @ (if hour dt < 12 then ''AM'' else ''PM'')"
    unfolding time_str_def a by (rule lstrip0_pad2 [OF hour12_pos])
  have b: "strftime dt ''%I:%M:%S%p'' =
      pad2 (hour12 (hour dt)) @ '':'' @ pad2 (minute dt) @ '':'' @ pad2 (second dt)
         @ (if hour dt < 12 then ''AM'' else ''PM'')"
    by (simp add: directive_def)
  show "time_str dt ''%I:%M:%S%p'' =
       digits_of (hour12 (hour dt)) @ '':'' @ pad2 (minute dt) @ '':'' @ pad2 (second dt)
         @ (if hour dt < 12 then ''AM'' else ''PM'')"
    unfolding time_str_def b by (rule lstrip0_pad2 [OF hour12_pos])
qed

lemma time_str_default_formats_example:
  "time_str may_7 ''%I:%M%p'' = ''8:08AM'' \<and> strftime may_7 ''%I:%M%p'' = ''08:08AM''
   \<and> time_str (may_7\<lparr>hour := 12\<rparr>) ''%I:%M:%S%p'' = ''12:08:05PM''"
proof -
  have "digits_of (hour12 (hour may_7)) @ '':'' @ pad2 (minute may_7)
          @ (if hour may_7 < 12 then ''AM'' else ''PM'') = ''8:08AM''" by code_simp
  moreover have "strftime may_7 ''%I:%M%p'' = ''08:08AM''" by code_simp
  moreover have "time_str (may_7\<lparr>hour := 12\<rparr>) ''%I:%M:%S%p'' = ''12:08:05PM''" by code_simp
  ultimately show ?thesis
    using time_str_strips_every_leading_zero [of may_7 "''%I:%M%p''"] by simp
qed

text \<open>
  C4 (the code at the failing input). The time string is meant to lose the single zero
  that pads the hour (\<open>05:08AM\<close> becomes \<open>5:08AM\<close>), and no other zero. The code
  removes every leading zero: with the time format \<open>%H:%M\<close>, five minutes after
  midnight, the formatted time \<open>00:05\<close> becomes \<open>:05\<close> and the directory is named
  \<open>1-data-:05\<close>; with \<open>%H%M%S\<close> at midnight the formatted time \<open>000000\<close> becomes empty
  and the name carries no time at all.
\<close>

theorem time_str_loses_every_zero:
  "strftime \<lparr>year = 2025, month = 5, day = 7, hour = 0, minute = 5, second = 0\<rparr> ''%H:%M'' = ''00:05''
   \<and> time_str \<lparr>year = 2025, month = 5, day = 7, hour = 0, minute = 5, second = 0\<rparr> ''%H:%M'' = '':05''
   \<and> fst (create_dir
        (example_world\<lparr>now := (\<lambda>z. \<lparr>year = 2025, month = 5, day = 7, hour = 0, minute = 5, second = 0\<rparr>)\<rparr>)
        ((default_request ''data'')\<lparr>use_time := True, time_format := Some ''%H:%M''\<rparr>) empty_fs)
       = Inr [''1-data-:05'']
   \<and> strftime \<lparr>year = 2025, month = 5, day = 7, hour = 0, minute = 0, second = 0\<rparr> ''%H%M%S'' = ''000000''
   \<and> time_str \<lparr>year = 2025, month = 5, day = 7, hour = 0, minute = 0, second = 0\<rparr> ''%H%M%S'' = []
   \<and> fst (create_dir
        (example_world\<lparr>now := (\<lambda>z. \<lparr>year = 2025, month = 5, day = 7, hour = 0, minute = 0, second = 0\<rparr>)\<rparr>)
        ((default_request ''data'')\<lparr>use_time := True, time_format := Some ''%H%M%S''\<rparr>) empty_fs)
       = Inr [''1-data'']"
  by code_simp

section \<open>The pattern and the separator\<close>

text \<open>
  C2 (the code at the failing input). With the separator \<open>.\<close> the pattern accepts the
  name \<open>3xdata\<close>, with prefix number 3: in the pattern the dot of the separator stands
  for any character, while the directory base is escaped. So \<open>create_dir\<close> with base
  name \<open>data\<close> beside a directory \<open>3xdata\<close> returns \<open>4.data\<close>. Besides, the final anchor
  accepts a line feed after the name.
\<close>

theorem unescaped_separator_matches:
  "py_re_match (pattern ''.'' ''data'') ''3xdata'' = Match [Some ''3'', None]
   \<and> fst (create_dir example_world ((default_request ''data'')\<lparr>separator := ''.''\<rparr>)
            \<lparr>dirs = [[''3xdata'']], files = (\<lambda>p. None)\<rparr>) = Inr [''4.data'']
   \<and> py_re_match (pattern ''-'' ''data'') (''1-data'' @ [newline]) = Match [Some ''1'', None]"
  by code_simp

section \<open>Properties of the loop over the existing directories\<close>

lemma observed_Nil: "observed m [] i = []"
  by (simp add: observed_def)

lemma observed_Cons:
  "observed m (d # ds) i =
     (case m d of Match gs \<Rightarrow> (case group_num gs i of Inl e \<Rightarrow> [] | Inr k \<Rightarrow> [k]) | _ \<Rightarrow> [])
     @ observed m ds i"
  by (simp add: observed_def)

lemma set_observed:
  "set (observed m ds i) = {k. \<exists>d\<in>set ds. \<exists>gs. m d = Match gs \<and> group_num gs i = Inr k}"
proof (induction ds)
  case Nil
  show ?case by (simp add: observed_Nil)
next
  case (Cons x ds)
  show ?case
  proof (cases "m x")
    case ReError
    with Cons show ?thesis by (auto simp: observed_Cons)
  next
    case NoMatch
    with Cons show ?thesis by (auto simp: observed_Cons)
  next
    case (Match gs)
    show ?thesis
    proof (cases "group_num gs i")
      case (Inl e)
      with Match Cons show ?thesis by (auto simp: observed_Cons)
    next
      case (Inr k)
      with Match Cons show ?thesis by (auto simp: observed_Cons)
    qed
  qed
qed

lemma Max_insert_max:
  fixes a p :: int
  assumes "finite S"
  shows "Max (insert (max a p) S) = Max (insert a (insert p S))"
proof (cases "S = {}")
  case True
  then show ?thesis by (simp add: max.commute)
next
  case False
  with assms show ?thesis by (simp add: max.assoc)
qed

lemma scan_dirs_value:
  "scan_dirs m ds (a, b) = Inr (mp, ms) \<Longrightarrow>
     mp = Max (insert a (set (observed m ds 1))) \<and> ms = Max (insert b (set (observed m ds 2)))"
proof (induction ds arbitrary: a b)
  case Nil
  then show ?case by (simp add: observed_Nil)
next
  case (Cons d ds)
  show ?case
  proof (cases "m d")
    case ReError
    with Cons.prems show ?thesis by simp
  next
    case NoMatch
    with Cons.prems have "scan_dirs m ds (a, b) = Inr (mp, ms)" by simp
    from Cons.IH [OF this] NoMatch show ?thesis by (simp add: observed_Cons)
  next
    case (Match gs)
    with Cons.prems obtain p s where p: "group_num gs 1 = Inr p" and s: "group_num gs 2 = Inr s"
      and rest: "scan_dirs m ds (max a p, max b s) = Inr (mp, ms)"
      by (auto split: sum.splits)
    from Cons.IH [OF rest] Match p s show ?thesis
      by (simp add: observed_Cons Max_insert_max insert_commute)
  qed
qed

lemma scan_dirs_all_read:
  "scan_dirs m ds acc = Inr mx \<Longrightarrow> d \<in> set ds \<Longrightarrow>
     m d \<noteq> ReError \<and> (\<forall>gs. m d = Match gs \<longrightarrow> (\<exists>p s. group_num gs 1 = Inr p \<and> group_num gs 2 = Inr s))"
proof (induction ds arbitrary: acc)
  case Nil
  then show ?case by simp
next
  case (Cons x ds)
  obtain a b where acc: "acc = (a, b)" by (cases acc)
  from Cons.prems(1) acc obtain acc' where rest: "scan_dirs m ds acc' = Inr mx"
    and here: "m x \<noteq> ReError \<and> (\<forall>gs. m x = Match gs \<longrightarrow> (\<exists>p s. group_num gs 1 = Inr p \<and> group_num gs 2 = Inr s))"
    by (auto split: re_result.splits sum.splits)
  show ?case
  proof (cases "d = x")
    case True
    with here show ?thesis by simp
  next
    case False
    with Cons.prems(2) have "d \<in> set ds" by simp
    from Cons.IH [OF rest this] show ?thesis .
  qed
qed

lemma scan_dirs_succeeds:
  "\<forall>d\<in>set ds. m d \<noteq> ReError \<and> (\<forall>gs. m d = Match gs \<longrightarrow> (\<exists>p s. group_num gs 1 = Inr p \<and> group_num gs 2 = Inr s))
   \<Longrightarrow> \<exists>mx. scan_dirs m ds acc = Inr mx"
proof (induction ds arbitrary: acc)
  case Nil
  show ?case by simp
next
  case (Cons x ds)
  obtain a b where acc: "acc = (a, b)" by (cases acc)
  from Cons.prems have tl: "\<forall>d\<in>set ds. m d \<noteq> ReError \<and> (\<forall>gs. m d = Match gs \<longrightarrow> (\<exists>p s. group_num gs 1 = Inr p \<and> group_num gs 2 = Inr s))"
    by simp
  show ?case
  proof (cases "m x")
    case ReError
    with Cons.prems show ?thesis by simp
  next
    case NoMatch
    with Cons.IH [OF tl, of "(a, b)"] acc show ?thesis by simp
  next
    case (Match gs)
    with Cons.prems obtain p s where "group_num gs 1 = Inr p" "group_num gs 2 = Inr s" by auto
    with Cons.IH [OF tl, of "(max a p, max b s)"] acc Match show ?thesis by simp
  qed
qed

lemma scan_dirs_order:
  assumes "scan_dirs m xs (a, b) = Inr mx" and "set ys = set xs"
  shows "scan_dirs m ys (a, b) = Inr mx"
proof -
  have "\<forall>d\<in>set ys. m d \<noteq> ReError \<and> (\<forall>gs. m d = Match gs \<longrightarrow> (\<exists>p s. group_num gs 1 = Inr p \<and> group_num gs 2 = Inr s))"
    using scan_dirs_all_read [OF assms(1)] assms(2) by blast
  from scan_dirs_succeeds [OF this] obtain mx' where ys: "scan_dirs m ys (a, b) = Inr mx'" by blast
  have "set (observed m ys i) = set (observed m xs i)" for i
    by (simp add: set_observed assms(2))
  with scan_dirs_value [of m ys a b "fst mx'" "snd mx'"] scan_dirs_value [of m xs a b "fst mx" "snd mx"] ys assms(1)
  have "mx' = mx" by (simp add: prod_eq_iff)
  with ys show ?thesis by simp
qed

lemma Max_insert0_ge:
  fixes S :: "int set"
  assumes "finite S"
  shows "0 \<le> Max (insert 0 S) \<and> (\<forall>k\<in>S. k \<le> Max (insert 0 S))"
  using assms by (simp add: Max_ge)

lemma Max_insert0_Un:
  fixes P S :: "int set"
  assumes "finite P" "finite S"
  shows "max (Max (insert 0 P)) (Max (insert 0 S)) = Max (insert 0 (P \<union> S))"
proof -
  have "Max (insert 0 P \<union> insert 0 S) = max (Max (insert 0 P)) (Max (insert 0 S))"
    using assms by (intro Max_Un) simp_all
  moreover have "insert 0 P \<union> insert 0 S = insert 0 (P \<union> S)" by auto
  ultimately show ?thesis by simp
qed

lemma decide_name_cases:
  "decide_name pre suf sep base mx =
     (if pre \<and> \<not> suf then (Some (fst mx + 1), str_int (fst mx + 1) @ sep @ base)
      else if suf \<and> \<not> pre then (Some (snd mx + 1), base @ sep @ str_int (snd mx + 1))
      else if pre \<and> suf then
        (Some (max (fst mx) (snd mx) + 1),
         str_int (max (fst mx) (snd mx) + 1) @ sep @ base @ sep @ str_int (max (fst mx) (snd mx) + 1))
      else (None, base))"
  by (simp add: decide_name_def Let_def)

section \<open>Properties of the directories made\<close>

lemma create_dir_InrE:
  assumes "create_dir w r s = (Inr p, s')"
  obtains cfg tz s1 mx s2 where
    "load_config w (config_file r) = Inr cfg"
    "set_timezone w (timezone r) cfg = Inr tz"
    "mkdir_p (abspath w (parent_dir r)) s = Inr s1"
    "scan_dirs (re_match w (pattern (separator r)
        (dir_base (now w tz) r (set_time_format (time_format r) cfg))))
       (subdir_names s1 (abspath w (parent_dir r))) (0, 0) = Inr mx"
    "p = joinpath (abspath w (parent_dir r))
          (new_dir_name (prefix r) (suffix r) (separator r)
             (dir_base (now w tz) r (set_time_format (time_format r) cfg)) mx)"
    "mkdir_p p s1 = Inr s2"
    "log_directory w (log_dir cfg) p tz s2 = (None, s')"
  using assms unfolding create_dir_def
  by (auto simp: Let_def split: sum.splits prod.splits option.splits)

lemma ancestors_self_length: "q \<in> set (ancestors_self p) \<Longrightarrow> q \<noteq> [] \<and> length q \<le> length p"
  by (auto simp: ancestors_self_def)


lemma mkdir_p_files: "mkdir_p p s = Inr s1 \<Longrightarrow> files s1 = files s"
  by (auto simp: mkdir_p_def split: if_splits)

lemma mkdir_p_dirs:
  "mkdir_p p s = Inr s1 \<Longrightarrow>
     \<exists>new. dirs s1 = dirs s @ new \<and> set new \<subseteq> set (ancestors_self p)"
  by (auto simp: mkdir_p_def split: if_splits)




lemma subdir_names_mkdir_p:
  assumes "mkdir_p p s = Inr s1"
  shows "subdir_names s1 p = subdir_names s p"
proof -
  from mkdir_p_dirs [OF assms] obtain new where d: "dirs s1 = dirs s @ new"
    and n: "set new \<subseteq> set (ancestors_self p)" by blast
  have "filter (\<lambda>q. q \<noteq> [] \<and> butlast q = p) new = []"
  proof (rule filter_False, rule ballI)
    fix q assume "q \<in> set new"
    with n have "q \<noteq> [] \<and> length q \<le> length p" using ancestors_self_length by blast
    then have "length (butlast q) < length p" by (cases q rule: rev_cases) auto
    then show "\<not> (q \<noteq> [] \<and> butlast q = p)" by auto
  qed
  with d show ?thesis by (simp add: subdir_names_def)
qed

lemma create_dir_scan:
  assumes "create_dir w r s = (Inr p, s')"
    and "load_config w (config_file r) = Inr cfg"
    and "set_timezone w (timezone r) cfg = Inr tz"
    and "base = dir_base (now w tz) r (set_time_format (time_format r) cfg)"
    and "m = re_match w (pattern (separator r) base)"
    and "existing = subdir_names s (abspath w (parent_dir r))"
  shows "\<exists>mx. scan_dirs m existing (0, 0) = Inr mx
          \<and> p = joinpath (abspath w (parent_dir r))
                  (snd (decide_name (prefix r) (suffix r) (separator r) base mx))"
proof -
  from assms(1) obtain cfg' tz' s1 mx s2 where
    c: "load_config w (config_file r) = Inr cfg'" and
    t: "set_timezone w (timezone r) cfg' = Inr tz'" and
    mk: "mkdir_p (abspath w (parent_dir r)) s = Inr s1" and
    sc: "scan_dirs (re_match w (pattern (separator r)
        (dir_base (now w tz') r (set_time_format (time_format r) cfg'))))
       (subdir_names s1 (abspath w (parent_dir r))) (0, 0) = Inr mx" and
    p: "p = joinpath (abspath w (parent_dir r))
          (new_dir_name (prefix r) (suffix r) (separator r)
             (dir_base (now w tz') r (set_time_format (time_format r) cfg')) mx)"
    by (rule create_dir_InrE)
  from c assms(2) have cfg: "cfg' = cfg" by simp
  with t assms(3) have tz: "tz' = tz" by simp
  from sc cfg tz assms(4-6) subdir_names_mkdir_p [OF mk]
  have scan: "scan_dirs m existing (0, 0) = Inr mx" by simp
  from p cfg tz assms(4) have name: "p = joinpath (abspath w (parent_dir r))
                  (snd (decide_name (prefix r) (suffix r) (separator r) base mx))"
    by (simp add: new_dir_name_def)
  from scan name show ?thesis by blast
qed

lemma dir_base_empty:
  "base_name r = [] \<Longrightarrow> \<not> use_date r \<Longrightarrow> \<not> use_time r \<Longrightarrow> dir_base dt r tf = []"
  by (simp add: dir_base_def timestamp_def non_empty_def)

lemma str_int_digits: "0 \<le> n \<Longrightarrow> list_all is_digit (str_int n)"
  by (simp add: str_int_def digits_of_all_digits)

section \<open>The number of the new name\<close>

text \<open>
  C1 (as the code has it). A call that returns a path has read every existing sibling
  name; the running maxima it ends with, and so the name, are the same for every list
  of the same set of sibling names, in whatever order the file system lists them. The
  number of the new name is greater than every number observed at an end at which the
  name carries it: greater than every prefix number when a prefix is requested, greater
  than every suffix number when a suffix is requested.
\<close>

theorem new_number_exceeds_observed:
  assumes "create_dir w r s = (Inr p, s')"
    and "load_config w (config_file r) = Inr cfg"
    and "set_timezone w (timezone r) cfg = Inr tz"
    and "base = dir_base (now w tz) r (set_time_format (time_format r) cfg)"
    and "m = re_match w (pattern (separator r) base)"
    and "existing = subdir_names s (abspath w (parent_dir r))"
  shows "\<exists>mx. scan_dirs m existing (0, 0) = Inr mx
          \<and> p = joinpath (abspath w (parent_dir r))
                  (snd (decide_name (prefix r) (suffix r) (separator r) base mx))
          \<and> (\<forall>ys. set ys = set existing \<longrightarrow> scan_dirs m ys (0, 0) = Inr mx)
          \<and> (\<forall>n. fst (decide_name (prefix r) (suffix r) (separator r) base mx) = Some n \<longrightarrow>
                (prefix r \<longrightarrow> (\<forall>k\<in>set (observed m existing 1). k < n)) \<and>
                (suffix r \<longrightarrow> (\<forall>k\<in>set (observed m existing 2). k < n)))"
proof -
  from create_dir_scan [OF assms]
  obtain mx where scan: "scan_dirs m existing (0, 0) = Inr mx"
    and name: "p = joinpath (abspath w (parent_dir r))
                  (snd (decide_name (prefix r) (suffix r) (separator r) base mx))"
    by blast
  have order: "\<forall>ys. set ys = set existing \<longrightarrow> scan_dirs m ys (0, 0) = Inr mx"
    using scan_dirs_order [OF scan] by blast
  from scan_dirs_value [of m existing 0 0 "fst mx" "snd mx"] scan
  have mp: "fst mx = Max (insert 0 (set (observed m existing 1)))"
    and ms: "snd mx = Max (insert 0 (set (observed m existing 2)))" by simp_all
  have b1: "\<forall>k\<in>set (observed m existing 1). k \<le> fst mx"
    unfolding mp using Max_insert0_ge [of "set (observed m existing 1)"] by simp
  have b2: "\<forall>k\<in>set (observed m existing 2). k \<le> snd mx"
    unfolding ms using Max_insert0_ge [of "set (observed m existing 2)"] by simp
  have bound: "\<forall>n. fst (decide_name (prefix r) (suffix r) (separator r) base mx) = Some n \<longrightarrow>
                (prefix r \<longrightarrow> (\<forall>k\<in>set (observed m existing 1). k < n)) \<and>
                (suffix r \<longrightarrow> (\<forall>k\<in>set (observed m existing 2). k < n))"
    using b1 b2 by (fastforce simp: decide_name_cases split: if_splits)
  from scan name order bound show ?thesis by blast
qed

theorem new_number_exceeds_observed_witness:
  "fst (create_dir example_world (default_request ''data'') sample_fs) = Inr [''4-data'']
   \<and> observed (re_match example_world (pattern ''-'' ''data'')) [''3-data-2'', ''data-5'', ''notes''] 1 = [3, 0]
   \<and> (\<exists>mx. scan_dirs (re_match example_world (pattern ''-'' ''data'')) [''3-data-2'', ''data-5'', ''notes''] (0, 0) = Inr mx
          \<and> scan_dirs (re_match example_world (pattern ''-'' ''data'')) [''notes'', ''data-5'', ''3-data-2'', ''data-5''] (0, 0) = Inr mx
          \<and> fst (decide_name True False ''-'' ''data'' mx) = Some 4)"
proof -
  let ?r = "default_request ''data''"
  let ?m = "re_match example_world (pattern ''-'' ''data'')"
  let ?e = "[''3-data-2'', ''data-5'', ''notes'']"
  have f: "fst (create_dir example_world ?r sample_fs) = Inr [''4-data'']" by code_simp
  then have h1: "create_dir example_world ?r sample_fs
      = (Inr [''4-data''], snd (create_dir example_world ?r sample_fs))"
    by (simp add: prod_eq_iff)
  have h2: "load_config example_world (config_file ?r) = Inr default_config" by code_simp
  have h3: "set_timezone example_world (timezone ?r) default_config = Inr ''UTC''" by code_simp
  have h4: "''data'' = dir_base (now example_world ''UTC'') ?r (set_time_format (time_format ?r) default_config)"
    by code_simp
  have h5: "?m = re_match example_world (pattern (separator ?r) ''data'')"
    by (simp add: default_request_def)
  have h6: "?e = subdir_names sample_fs (abspath example_world (parent_dir ?r))" by code_simp
  from new_number_exceeds_observed [OF h1 h2 h3 h4 h5 h6]
  obtain mx where sc: "scan_dirs ?m ?e (0, 0) = Inr mx"
    and ord: "\<forall>ys. set ys = set ?e \<longrightarrow> scan_dirs ?m ys (0, 0) = Inr mx"
    by blast
  have "set [''notes'', ''data-5'', ''3-data-2'', ''data-5''] = set ?e" by auto
  with ord have sc2: "scan_dirs ?m [''notes'', ''data-5'', ''3-data-2'', ''data-5''] (0, 0) = Inr mx" by blast
  have "scan_dirs ?m ?e (0, 0) = Inr (3, 5)" by code_simp
  with sc have "mx = (3, 5)" by simp
  moreover have "fst (decide_name True False ''-'' ''data'' (3, 5)) = Some 4" by code_simp
  ultimately have n: "fst (decide_name True False ''-'' ''data'' mx) = Some 4" by simp
  have o: "observed ?m ?e 1 = [3, 0]" by code_simp
  from f o sc sc2 n show ?thesis by blast
qed

text \<open>
  The claim as stated compares the number with the numbers observed at either end. It
  fails for a prefix alone beside the directory \<open>data-5\<close>: the new name is \<open>1-data\<close>,
  and the suffix number 5 observed is not below 1.
\<close>

theorem prefix_number_below_suffix_counterexample:
  "fst (create_dir example_world (default_request ''data'') \<lparr>dirs = [[''data-5'']], files = (\<lambda>p. None)\<rparr>)
     = Inr [''1-data'']
   \<and> observed (re_match example_world (pattern ''-'' ''data'')) [''data-5''] 2 = [5]
   \<and> \<not> list_all (\<lambda>k. k < 1) (observed (re_match example_world (pattern ''-'' ''data'')) [''data-5''] 2)"
  by code_simp

text \<open>
  C6. With a prefix and a suffix both requested, the name returned is the directory
  base between two copies of one number, and that number is one more than the greatest
  of the prefix and suffix numbers observed among the existing siblings that match (an
  end without a number counts as 0, as does a directory with no sibling that matches).
\<close>

theorem both_ends_same_number:
  assumes "create_dir w r s = (Inr p, s')"
    and "load_config w (config_file r) = Inr cfg"
    and "set_timezone w (timezone r) cfg = Inr tz"
    and "base = dir_base (now w tz) r (set_time_format (time_format r) cfg)"
    and "m = re_match w (pattern (separator r) base)"
    and "existing = subdir_names s (abspath w (parent_dir r))"
    and "prefix r" and "suffix r"
  shows "\<exists>n. n = Max (insert 0 (set (observed m existing 1) \<union> set (observed m existing 2))) + 1
          \<and> p = joinpath (abspath w (parent_dir r))
                  (str_int n @ separator r @ base @ separator r @ str_int n)"
proof -
  from create_dir_scan [OF assms(1-6)]
  obtain mx where scan: "scan_dirs m existing (0, 0) = Inr mx"
    and name: "p = joinpath (abspath w (parent_dir r))
                  (snd (decide_name (prefix r) (suffix r) (separator r) base mx))"
    by blast
  from scan_dirs_value [of m existing 0 0 "fst mx" "snd mx"] scan
  have mp: "fst mx = Max (insert 0 (set (observed m existing 1)))"
    and ms: "snd mx = Max (insert 0 (set (observed m existing 2)))" by simp_all
  have "max (fst mx) (snd mx) = Max (insert 0 (set (observed m existing 1) \<union> set (observed m existing 2)))"
    unfolding mp ms by (rule Max_insert0_Un) simp_all
  with name assms(7,8) show ?thesis by (simp add: decide_name_cases)
qed

theorem both_ends_same_number_witness:
  "fst (create_dir example_world ((default_request ''data'')\<lparr>suffix := True\<rparr>) sample_fs)
     = Inr [''6-data-6'']
   \<and> observed (re_match example_world (pattern ''-'' ''data'')) [''3-data-2'', ''data-5'', ''notes''] 1 = [3, 0]
   \<and> observed (re_match example_world (pattern ''-'' ''data'')) [''3-data-2'', ''data-5'', ''notes''] 2 = [2, 5]
   \<and> (\<exists>n. n = Max (insert 0 (set [3, 0] \<union> set [2, 5])) + 1 \<and>
         [''6-data-6''] = joinpath [] (str_int n @ ''-'' @ ''data'' @ ''-'' @ str_int n))"
proof -
  let ?r = "(default_request ''data'')\<lparr>suffix := True\<rparr>"
  let ?m = "re_match example_world (pattern ''-'' ''data'')"
  let ?e = "[''3-data-2'', ''data-5'', ''notes'']"
  have f: "fst (create_dir example_world ?r sample_fs) = Inr [''6-data-6'']" by code_simp
  then have h1: "create_dir example_world ?r sample_fs
      = (Inr [''6-data-6''], snd (create_dir example_world ?r sample_fs))"
    by (simp add: prod_eq_iff)
  have h2: "load_config example_world (config_file ?r) = Inr default_config" by code_simp
  have h3: "set_timezone example_world (timezone ?r) default_config = Inr ''UTC''" by code_simp
  have h4: "''data'' = dir_base (now example_world ''UTC'') ?r (set_time_format (time_format ?r) default_config)"
    by code_simp
  have h5: "?m = re_match example_world (pattern (separator ?r) ''data'')"
    by (simp add: default_request_def)
  have h6: "?e = subdir_names sample_fs (abspath example_world (parent_dir ?r))" by code_simp
  have h7: "prefix ?r" by (simp add: default_request_def)
  have h8: "suffix ?r" by simp
  have o1: "observed ?m ?e 1 = [3, 0]" by code_simp
  have o2: "observed ?m ?e 2 = [2, 5]" by code_simp
  have pa: "abspath example_world (parent_dir ?r) = []" by code_simp
  have sep: "separator ?r = ''-''" by (simp add: default_request_def)
  from both_ends_same_number [OF h1 h2 h3 h4 h5 h6 h7 h8]
  have "\<exists>n. n = Max (insert 0 (set [3, 0] \<union> set [2, 5])) + 1 \<and>
         [''6-data-6''] = joinpath [] (str_int n @ ''-'' @ ''data'' @ ''-'' @ str_int n)"
    unfolding o1 o2 pa sep .
  with f o1 o2 show ?thesis by blast
qed

text \<open>
  C3 (as the code has it). With an empty base name and no time stamp the directory base
  is empty, and a call with a prefix or a suffix returns a name made of the number and
  the separator: the number then the separator for a prefix, the separator then the
  number for a suffix, the number, the separator twice and the number for both. The
  number is at least 1 and is written with digits only.
\<close>

theorem empty_base_name_number_and_separator:
  assumes "create_dir w r s = (Inr p, s')"
    and "base_name r = []" and "\<not> use_date r" and "\<not> use_time r"
    and "prefix r \<or> suffix r"
  shows "\<exists>n. 1 \<le> n \<and> list_all is_digit (str_int n) \<and>
           p = joinpath (abspath w (parent_dir r))
                 (if prefix r \<and> \<not> suffix r then str_int n @ separator r
                  else if suffix r \<and> \<not> prefix r then separator r @ str_int n
                  else str_int n @ separator r @ separator r @ str_int n)"
proof -
  from assms(1) obtain cfg tz where
    c: "load_config w (config_file r) = Inr cfg" and
    t: "set_timezone w (timezone r) cfg = Inr tz"
    by (rule create_dir_InrE)
  define m where "m = re_match w (pattern (separator r) [])"
  define existing where "existing = subdir_names s (abspath w (parent_dir r))"
  have b: "[] = dir_base (now w tz) r (set_time_format (time_format r) cfg)"
    using assms(2-4) by (simp add: dir_base_empty)
  from create_dir_scan [OF assms(1) c t b m_def existing_def]
  obtain mx where scan: "scan_dirs m existing (0, 0) = Inr mx"
    and name: "p = joinpath (abspath w (parent_dir r))
                  (snd (decide_name (prefix r) (suffix r) (separator r) [] mx))"
    by blast
  from scan_dirs_value [of m existing 0 0 "fst mx" "snd mx"] scan
  have mp: "fst mx = Max (insert 0 (set (observed m existing 1)))"
    and ms: "snd mx = Max (insert 0 (set (observed m existing 2)))" by simp_all
  have p0: "0 \<le> fst mx"
    unfolding mp using Max_insert0_ge [of "set (observed m existing 1)"] by simp
  have s0: "0 \<le> snd mx"
    unfolding ms using Max_insert0_ge [of "set (observed m existing 2)"] by simp
  define n where "n = (if prefix r \<and> \<not> suffix r then fst mx + 1
                       else if suffix r \<and> \<not> prefix r then snd mx + 1
                       else max (fst mx) (snd mx) + 1)"
  from p0 s0 have n1: "1 \<le> n" by (auto simp: n_def max_def)
  then have dig: "list_all is_digit (str_int n)" by (simp add: str_int_digits)
  from name assms(5) have "p = joinpath (abspath w (parent_dir r))
                 (if prefix r \<and> \<not> suffix r then str_int n @ separator r
                  else if suffix r \<and> \<not> prefix r then separator r @ str_int n
                  else str_int n @ separator r @ separator r @ str_int n)"
    by (auto simp: decide_name_cases n_def)
  with n1 dig show ?thesis by blast
qed

theorem empty_base_name_number_and_separator_witness:
  "fst (create_dir example_world (default_request '''') \<lparr>dirs = [[''1-'']], files = (\<lambda>p. None)\<rparr>) = Inr [''2-'']
   \<and> (\<exists>n. 1 \<le> n \<and> list_all is_digit (str_int n) \<and> [''2-''] = joinpath [] (str_int n @ ''-''))"
proof -
  let ?r = "default_request ''''"
  let ?s = "\<lparr>dirs = [[''1-'']], files = (\<lambda>p. None)\<rparr>"
  have f: "fst (create_dir example_world ?r ?s) = Inr [''2-'']" by code_simp
  then have h1: "create_dir example_world ?r ?s = (Inr [''2-''], snd (create_dir example_world ?r ?s))"
    by (simp add: prod_eq_iff)
  have h: "base_name ?r = []" "\<not> use_date ?r" "\<not> use_time ?r" "prefix ?r \<or> suffix ?r"
    by (simp_all add: default_request_def)
  have pa: "abspath example_world (parent_dir ?r) = []" by code_simp
  have x: "prefix ?r \<and> \<not> suffix ?r" "separator ?r = ''-''" by (simp_all add: default_request_def)
  from empty_base_name_number_and_separator [OF h1 h]
  have "\<exists>n. 1 \<le> n \<and> list_all is_digit (str_int n) \<and> [''2-''] = joinpath [] (str_int n @ ''-'')"
    unfolding pa by (simp add: x)
  with f show ?thesis by blast
qed

text \<open>
  The claim as stated (the name is the number alone) fails with the default separator:
  in an empty parent the names are \<open>1-\<close> for a prefix and \<open>1--1\<close> for both.
\<close>

theorem empty_base_name_counterexample:
  "fst (create_dir example_world (default_request '''') empty_fs) = Inr [''1-'']
   \<and> \<not> list_all is_digit ''1-''
   \<and> fst (create_dir example_world ((default_request '''')\<lparr>suffix := True\<rparr>) empty_fs) = Inr [''1--1'']"
  by code_simp

section \<open>The time written to the log\<close>

lemma replace_Nil: "py_replace '' 0'' '' '' [] = []"
  by (subst py_replace.simps) simp

lemma replace_space_zero:
  "py_replace '' 0'' '' '' (CHR '' '' # CHR ''0'' # s) = CHR '' '' # py_replace '' 0'' '' '' s"
  by (subst py_replace.simps) simp

lemma replace_other:
  "c \<noteq> CHR '' '' \<Longrightarrow> py_replace '' 0'' '' '' (c # s) = c # py_replace '' 0'' '' '' s"
  by (subst py_replace.simps) (cases s, simp_all)

lemma replace_space_other:
  "take 1 s \<noteq> ''0'' \<Longrightarrow> py_replace '' 0'' '' '' (CHR '' '' # s) = CHR '' '' # py_replace '' 0'' '' '' s"
  by (subst py_replace.simps) (cases s, simp_all)

lemma replace_no_space:
  "CHR '' '' \<notin> set xs \<Longrightarrow> py_replace '' 0'' '' '' (xs @ ys) = xs @ py_replace '' 0'' '' '' ys"
proof (induction xs)
  case Nil
  show ?case by simp
next
  case (Cons a xs)
  then have "a \<noteq> CHR '' ''" and "CHR '' '' \<notin> set xs" by auto
  with Cons.IH show ?case by (simp add: replace_other)
qed

lemma digits_of_no_space: "CHR '' '' \<notin> set (digits_of n)"
proof -
  have "\<not> is_digit CHR '' ''" by (simp add: is_digit_def)
  with digits_of_all_digits [of n] show ?thesis by (auto simp: list_all_iff)
qed

lemma pad2_no_space: "CHR '' '' \<notin> set (pad2 n)"
  using digits_of_no_space [of n] by (simp add: pad2_def)

lemma month_abbr_no_space: "CHR '' '' \<notin> set (month_abbr m)"
  by (simp add: month_abbr_def)

lemma replace_space_digits:
  assumes "0 < n"
  shows "py_replace '' 0'' '' '' (CHR '' '' # digits_of n @ rest) = CHR '' '' # digits_of n @ py_replace '' 0'' '' '' rest"
proof -
  from digits_of_hd [OF assms] digits_of_nonempty [of n]
  have "take 1 (digits_of n @ rest) \<noteq> ''0''" by (cases "digits_of n") auto
  then show ?thesis by (simp add: replace_space_other replace_no_space digits_of_no_space)
qed

lemma replace_space_pad2:
  assumes "0 < n"
  shows "py_replace '' 0'' '' '' (CHR '' '' # pad2 n @ rest) = CHR '' '' # digits_of n @ py_replace '' 0'' '' '' rest"
proof (cases "n < 10")
  case True
  then have "pad2 n = CHR ''0'' # digits_of n" by (simp add: pad2_def)
  then show ?thesis
    by (simp add: replace_space_zero replace_no_space digits_of_no_space)
next
  case False
  then have "pad2 n = digits_of n" by (simp add: pad2_def)
  with replace_space_digits [OF assms] show ?thesis by simp
qed

lemma strftime_log_format:
  "strftime dt ''%b %d, %Y at %I:%M %p'' =
     month_abbr (month dt) @ CHR '' '' # pad2 (day dt) @ CHR '','' # CHR '' '' # digits_of (year dt)
       @ CHR '' '' # CHR ''a'' # CHR ''t'' # CHR '' '' # pad2 (hour12 (hour dt)) @ CHR '':'' # pad2 (minute dt)
       @ CHR '' '' # (if hour dt < 12 then ''AM'' else ''PM'')"
  by (simp add: directive_def)

text \<open>
  C10. The time of a log entry is the date formatted as \<open>%b %d, %Y at %I:%M %p\<close> in
  which every space followed by a zero has become a space. For a date with a day and a
  year of at least 1 this removes the zero that pads the day of the month and the zero
  that pads the hour, and nothing else: the entry reads month, day without padding,
  year, hour without padding, minute with padding, AM or PM.
\<close>

theorem log_time_without_zero_of_day_and_hour:
  assumes "0 < day dt" and "0 < year dt"
  shows "creation_time dt =
           month_abbr (month dt) @ '' '' @ digits_of (day dt) @ '', '' @ digits_of (year dt)
             @ '' at '' @ digits_of (hour12 (hour dt)) @ '':'' @ pad2 (minute dt)
             @ '' '' @ (if hour dt < 12 then ''AM'' else ''PM'')"
proof -
  let ?R = "py_replace '' 0'' '' ''"
  let ?ampm = "if hour dt < 12 then ''AM'' else ''PM''"
  have s5: "?R (CHR '' '' # ?ampm) = CHR '' '' # ?ampm"
    by (simp add: replace_space_other replace_other replace_Nil)
  have s4: "?R (CHR '':'' # pad2 (minute dt) @ CHR '' '' # ?ampm)
      = CHR '':'' # pad2 (minute dt) @ CHR '' '' # ?ampm"
    using s5 by (simp add: replace_other replace_no_space pad2_no_space)
  have s3: "?R (CHR '' '' # pad2 (hour12 (hour dt)) @ CHR '':'' # pad2 (minute dt) @ CHR '' '' # ?ampm)
      = CHR '' '' # digits_of (hour12 (hour dt)) @ CHR '':'' # pad2 (minute dt) @ CHR '' '' # ?ampm"
    using s4 by (simp only: replace_space_pad2 [OF hour12_pos])
  have s2: "?R (CHR '' '' # CHR ''a'' # CHR ''t'' # CHR '' '' # pad2 (hour12 (hour dt)) @ CHR '':'' # pad2 (minute dt) @ CHR '' '' # ?ampm)
      = CHR '' '' # CHR ''a'' # CHR ''t'' # CHR '' '' # digits_of (hour12 (hour dt)) @ CHR '':'' # pad2 (minute dt) @ CHR '' '' # ?ampm"
    using s3 by (simp add: replace_space_other replace_other)
  have s1: "?R (CHR '','' # CHR '' '' # digits_of (year dt) @ CHR '' '' # CHR ''a'' # CHR ''t'' # CHR '' '' # pad2 (hour12 (hour dt)) @ CHR '':'' # pad2 (minute dt) @ CHR '' '' # ?ampm)
      = CHR '','' # CHR '' '' # digits_of (year dt) @ CHR '' '' # CHR ''a'' # CHR ''t'' # CHR '' '' # digits_of (hour12 (hour dt)) @ CHR '':'' # pad2 (minute dt) @ CHR '' '' # ?ampm"
    using s2 by (simp add: replace_other replace_space_digits [OF assms(2)])
  have s0: "?R (month_abbr (month dt) @ CHR '' '' # pad2 (day dt) @ CHR '','' # CHR '' '' # digits_of (year dt) @ CHR '' '' # CHR ''a'' # CHR ''t'' # CHR '' '' # pad2 (hour12 (hour dt)) @ CHR '':'' # pad2 (minute dt) @ CHR '' '' # ?ampm)
      = month_abbr (month dt) @ CHR '' '' # digits_of (day dt) @ CHR '','' # CHR '' '' # digits_of (year dt) @ CHR '' '' # CHR ''a'' # CHR ''t'' # CHR '' '' # digits_of (hour12 (hour dt)) @ CHR '':'' # pad2 (minute dt) @ CHR '' '' # ?ampm"
    using s1 by (simp only: replace_no_space [OF month_abbr_no_space] replace_space_pad2 [OF assms(1)])
  show ?thesis
    unfolding creation_time_def strftime_log_format s0 by simp
qed

theorem log_time_without_zero_of_day_and_hour_witness:
  "0 < day may_7 \<and> 0 < year may_7
   \<and> strftime may_7 ''%b %d, %Y at %I:%M %p'' = ''May 07, 2025 at 08:08 AM''
   \<and> creation_time may_7 = ''May 7, 2025 at 8:08 AM''"
proof -
  have a: "0 < day may_7" by code_simp
  have b: "0 < year may_7" by code_simp
  have c: "strftime may_7 ''%b %d, %Y at %I:%M %p'' = ''May 07, 2025 at 08:08 AM''" by code_simp
  have d: "month_abbr (month may_7) @ '' '' @ digits_of (day may_7) @ '', '' @ digits_of (year may_7)
             @ '' at '' @ digits_of (hour12 (hour may_7)) @ '':'' @ pad2 (minute may_7)
             @ '' '' @ (if hour may_7 < 12 then ''AM'' else ''PM'') = ''May 7, 2025 at 8:08 AM''"
    by code_simp
  from log_time_without_zero_of_day_and_hour [OF a b] d
  have "creation_time may_7 = ''May 7, 2025 at 8:08 AM''" by simp
  with a b c show ?thesis by blast
qed

section \<open>Properties of the log and of repeated calls\<close>


lemma log_directory_NoneE:
  assumes "log_directory w ld p tz s = (None, s')" and "truthy ld"
  obtains s1 where
    "mkdir_p (expanduser w (text_of ld)) s = Inr s1"
    "\<not> is_dir s1 (expanduser w (text_of ld) @ [''smartdirs.log''])"
    "s' = s1\<lparr>files := (files s1)(expanduser w (text_of ld) @ [''smartdirs.log''] \<mapsto>
            (case files s1 (expanduser w (text_of ld) @ [''smartdirs.log'']) of None \<Rightarrow> [] | Some rows \<Rightarrow> rows)
            @ (if path_exists s1 (expanduser w (text_of ld) @ [''smartdirs.log'']) then [] else [headers])
            @ [[creation_time (now w tz), path_name p, path_str p]])\<rparr>"
  using assms unfolding log_directory_def
  by (auto simp: Let_def split: sum.splits if_splits)

lemma log_directory_appends:
  assumes "log_directory w ld p tz s = (None, s')" and "truthy ld"
    and "lf = expanduser w (text_of ld) @ [''smartdirs.log'']"
  shows "files s' lf =
           Some ((case files s lf of None \<Rightarrow> [headers] | Some rows \<Rightarrow> rows)
                 @ [[creation_time (now w tz), path_name p, path_str p]])"
proof -
  from assms(1,2) obtain s1 where
    mk: "mkdir_p (expanduser w (text_of ld)) s = Inr s1" and
    nd: "\<not> is_dir s1 lf" and
    s': "s' = s1\<lparr>files := (files s1)(lf \<mapsto>
            (case files s1 lf of None \<Rightarrow> [] | Some rows \<Rightarrow> rows)
            @ (if path_exists s1 lf then [] else [headers])
            @ [[creation_time (now w tz), path_name p, path_str p]])\<rparr>"
    unfolding assms(3) by (rule log_directory_NoneE)
  from mkdir_p_files [OF mk] have f: "files s1 = files s" .
  show ?thesis
    using nd by (cases "files s lf") (simp_all add: s' f path_exists_def is_file_def)
qed




lemma group_num_error: "group_num gs i = Inl e \<Longrightarrow> e = IndexError \<or> e = ValueError"
  by (auto simp: group_num_def group_def py_int_def split: if_splits sum.splits)

lemma scan_dirs_error:
  "scan_dirs m ds acc = Inl e \<Longrightarrow> e = RegexError \<or> e = IndexError \<or> e = ValueError"
proof (induction ds arbitrary: acc)
  case Nil
  then show ?case by simp
next
  case (Cons d ds)
  obtain a b where acc: "acc = (a, b)" by (cases acc)
  show ?case
  proof (cases "m d")
    case ReError
    with Cons.prems acc show ?thesis by simp
  next
    case NoMatch
    with Cons.prems acc have "scan_dirs m ds (a, b) = Inl e" by simp
    then show ?thesis by (rule Cons.IH)
  next
    case (Match gs)
    show ?thesis
    proof (cases "group_num gs 1")
      case (Inl e1)
      with Cons.prems acc Match have "e = e1" by simp
      with Inl group_num_error show ?thesis by blast
    next
      case (Inr k1)
      show ?thesis
      proof (cases "group_num gs 2")
        case (Inl e2)
        with Cons.prems acc Match Inr have "e = e2" by simp
        with Inl group_num_error show ?thesis by blast
      next
        case (Inr k2)
        with Cons.prems acc Match \<open>group_num gs 1 = Inr k1\<close>
        have "scan_dirs m ds (max a k1, max b k2) = Inl e" by simp
        then show ?thesis by (rule Cons.IH)
      qed
    qed
  qed
qed




text \<open>
  C8. Two calls that return, one after the other, with a log directory configured and
  no file or directory at the path of the log before the first: after the second call
  the log holds the header row, then the row of the first call, then the row of the
  second, and nothing else. The requests, the clocks and the zones of the two calls
  may differ, and either call may have made its directory or found it.
\<close>

theorem two_calls_one_header_two_rows:
  assumes "create_dir w r s = (Inr p1, s1)"
    and "create_dir w' r' s1 = (Inr p2, s2)"
    and "load_config w (config_file r) = Inr cfg"
    and "load_config w' (config_file r') = Inr cfg'"
    and "set_timezone w (timezone r) cfg = Inr tz"
    and "set_timezone w' (timezone r') cfg' = Inr tz'"
    and "truthy (log_dir cfg)"
    and "log_dir cfg' = log_dir cfg"
    and "expanduser w' = expanduser w"
    and "log_file = expanduser w (text_of (log_dir cfg)) @ [''smartdirs.log'']"
    and "\<not> path_exists s log_file"
  shows "files s2 log_file =
           Some [headers,
                 [creation_time (now w tz), path_name p1, path_str p1],
                 [creation_time (now w' tz'), path_name p2, path_str p2]]"
proof -
  from assms(1) obtain c1 t1 a1 a2 where
    c1: "load_config w (config_file r) = Inr c1" and
    t1: "set_timezone w (timezone r) c1 = Inr t1" and
    m1: "mkdir_p (abspath w (parent_dir r)) s = Inr a1" and
    m2: "mkdir_p p1 a1 = Inr a2" and
    l1: "log_directory w (log_dir c1) p1 t1 a2 = (None, s1)"
    by (rule create_dir_InrE)
  from c1 assms(3) have [simp]: "c1 = cfg" by simp
  from t1 assms(5) have [simp]: "t1 = tz" by simp
  from assms(11) have "files s log_file = None" by (simp add: path_exists_def is_file_def)
  with mkdir_p_files [OF m1] mkdir_p_files [OF m2] have "files a2 log_file = None" by simp
  with log_directory_appends [OF l1 [simplified] assms(7) assms(10)]
  have first: "files s1 log_file = Some [headers, [creation_time (now w tz), path_name p1, path_str p1]]"
    by simp
  from assms(2) obtain c2 t2 b1 b2 where
    c2: "load_config w' (config_file r') = Inr c2" and
    t2: "set_timezone w' (timezone r') c2 = Inr t2" and
    n1: "mkdir_p (abspath w' (parent_dir r')) s1 = Inr b1" and
    n2: "mkdir_p p2 b1 = Inr b2" and
    l2: "log_directory w' (log_dir c2) p2 t2 b2 = (None, s2)"
    by (rule create_dir_InrE)
  from c2 assms(4) have [simp]: "c2 = cfg'" by simp
  from t2 assms(6) have [simp]: "t2 = tz'" by simp
  from first mkdir_p_files [OF n1] mkdir_p_files [OF n2]
  have mid: "files b2 log_file = Some [headers, [creation_time (now w tz), path_name p1, path_str p1]]"
    by simp
  have t: "truthy (log_dir cfg')" using assms(7,8) by simp
  have lf: "log_file = expanduser w' (text_of (log_dir cfg')) @ [''smartdirs.log'']"
    using assms(8,9,10) by simp
  from log_directory_appends [OF l2 [simplified] t lf] mid show ?thesis by simp
qed

theorem two_calls_one_header_two_rows_witness:
  "fst (create_dir logging_world ((default_request ''data'')\<lparr>prefix := False\<rparr>) empty_fs) = Inr [''data'']
   \<and> fst (create_dir logging_world ((default_request ''data'')\<lparr>prefix := False\<rparr>)
          (snd (create_dir logging_world ((default_request ''data'')\<lparr>prefix := False\<rparr>) empty_fs)))
       = Inr [''data'']
   \<and> \<not> path_exists empty_fs [''var'', ''log'', ''smartdirs'', ''smartdirs.log'']
   \<and> files (snd (create_dir logging_world ((default_request ''data'')\<lparr>prefix := False\<rparr>)
          (snd (create_dir logging_world ((default_request ''data'')\<lparr>prefix := False\<rparr>) empty_fs))))
         [''var'', ''log'', ''smartdirs'', ''smartdirs.log'']
       = Some [[''Date'', ''Directory'', ''Path''],
               [''May 7, 2025 at 8:08 AM'', ''data'', ''/data''],
               [''May 7, 2025 at 8:08 AM'', ''data'', ''/data'']]"
proof -
  let ?r = "(default_request ''data'')\<lparr>prefix := False\<rparr>"
  let ?cfg = "\<lparr>config_timezone = None, time_format_with_seconds = False,
               log_dir = Some ''/var/log/smartdirs''\<rparr>"
  let ?lf = "[''var'', ''log'', ''smartdirs'', ''smartdirs.log'']"
  let ?s1 = "snd (create_dir logging_world ?r empty_fs)"
  let ?s2 = "snd (create_dir logging_world ?r ?s1)"
  have f1: "fst (create_dir logging_world ?r empty_fs) = Inr [''data'']" by code_simp
  have f2: "fst (create_dir logging_world ?r ?s1) = Inr [''data'']" by code_simp
  from f1 have h1: "create_dir logging_world ?r empty_fs = (Inr [''data''], ?s1)"
    by (simp add: prod_eq_iff)
  from f2 have h2: "create_dir logging_world ?r ?s1 = (Inr [''data''], ?s2)"
    by (simp add: prod_eq_iff)
  have h3: "load_config logging_world (config_file ?r) = Inr ?cfg" by code_simp
  have h5: "set_timezone logging_world (timezone ?r) ?cfg = Inr ''UTC''" by code_simp
  have h7: "truthy (log_dir ?cfg)" by code_simp
  have h10: "?lf = expanduser logging_world (text_of (log_dir ?cfg)) @ [''smartdirs.log'']"
    by code_simp
  have h11: "\<not> path_exists empty_fs ?lf" by code_simp
  have e1: "headers = [''Date'', ''Directory'', ''Path'']" by code_simp
  have e2: "creation_time (now logging_world ''UTC'') = ''May 7, 2025 at 8:08 AM''" by code_simp
  have e3: "path_name [''data''] = ''data''" by code_simp
  have e4: "path_str [''data''] = ''/data''" by code_simp
  from two_calls_one_header_two_rows [OF h1 h2 h3 h3 h5 h5 h7 refl refl h10 h11]
  have "files ?s2 ?lf = Some [[''Date'', ''Directory'', ''Path''],
               [''May 7, 2025 at 8:08 AM'', ''data'', ''/data''],
               [''May 7, 2025 at 8:08 AM'', ''data'', ''/data'']]"
    unfolding e1 e2 e3 e4 .
  with f1 f2 h11 show ?thesis by blast
qed





text \<open>
  Outside these conditions the second call can raise: with the separator \<open>(\<close> the
  pattern does not compile (the separator is not escaped), which the first call
  does not notice in an empty parent directory, where no name is matched, and the second
  call does.
\<close>

lemma second_call_pattern_error:
  "fst (create_dir example_world ((default_request ''data'')\<lparr>prefix := False, separator := ''(''\<rparr>) empty_fs)
     = Inr [''data'']
   \<and> fst (create_dir example_world ((default_request ''data'')\<lparr>prefix := False, separator := ''(''\<rparr>)
          (snd (create_dir example_world ((default_request ''data'')\<lparr>prefix := False, separator := ''(''\<rparr>) empty_fs)))
       = Inl RegexError"
  by code_simp

section \<open>The errors of a call and the unknown time zone\<close>

lemma mkdir_p_error: "mkdir_p p s = Inl e \<Longrightarrow> e = OSError"
  by (auto simp: mkdir_p_def split: if_splits)

lemma log_directory_error: "log_directory w ld p tz s = (Some e, s') \<Longrightarrow> e = OSError"
  by (auto simp: log_directory_def Let_def dest: mkdir_p_error split: if_splits sum.splits)

lemma load_config_error: "load_config w cf = Inl e \<Longrightarrow> e = ValueError"
  by (auto simp: load_config_def getboolean_def default_config_def split: option.splits sum.splits if_splits)

lemma set_timezone_unknown:
  "(set_timezone w tzname cfg = Inl UnknownTimeZoneError)
   = ((truthy tzname \<and> pytz_timezone w (text_of tzname) = None) \<or>
      (\<not> truthy tzname \<and> truthy (config_timezone cfg) \<and>
       pytz_timezone w (text_of (config_timezone cfg)) = None))"
  by (auto simp: set_timezone_def lookup_timezone_def split: option.splits)

lemma create_dir_unknown_timezone:
  assumes "fst (create_dir w r s) = Inl UnknownTimeZoneError"
    and "load_config w (config_file r) = Inr cfg"
  shows "set_timezone w (timezone r) cfg = Inl UnknownTimeZoneError"
proof (cases "set_timezone w (timezone r) cfg")
  case (Inl e)
  with assms show ?thesis by (simp add: create_dir_def)
next
  case (Inr tz)
  let ?parent = "abspath w (parent_dir r)"
  let ?base = "dir_base (now w tz) r (set_time_format (time_format r) cfg)"
  show ?thesis
  proof (cases "mkdir_p ?parent s")
    case (Inl e)
    with assms Inr mkdir_p_error [OF Inl] show ?thesis by (simp add: create_dir_def)
  next
    case s1: (Inr s1)
    show ?thesis
    proof (cases "scan_dirs (re_match w (pattern (separator r) ?base)) (subdir_names s1 ?parent) (0, 0)")
      case (Inl e)
      with assms Inr s1 scan_dirs_error [OF Inl] show ?thesis
        by (auto simp: create_dir_def Let_def)
    next
      case mx: (Inr mx)
      let ?p = "joinpath ?parent (new_dir_name (prefix r) (suffix r) (separator r) ?base mx)"
      show ?thesis
      proof (cases "mkdir_p ?p s1")
        case (Inl e)
        with assms Inr s1 mx mkdir_p_error [OF Inl] show ?thesis
          by (simp add: create_dir_def Let_def)
      next
        case s2: (Inr s2)
        obtain eo s3 where lg: "log_directory w (log_dir cfg) ?p tz s2 = (eo, s3)"
          by (cases "log_directory w (log_dir cfg) ?p tz s2")
        show ?thesis
        proof (cases eo)
          case None
          with assms Inr s1 mx s2 lg show ?thesis by (simp add: create_dir_def Let_def)
        next
          case (Some e)
          with lg have "log_directory w (log_dir cfg) ?p tz s2 = (Some e, s3)" by simp
          then have "e = OSError" by (rule log_directory_error)
          with assms Inr s1 mx s2 lg Some show ?thesis by (simp add: create_dir_def Let_def)
        qed
      qed
    qed
  qed
qed

lemma malformed_config_no_side_effects:
  "load_config w (config_file r) = Inl e \<Longrightarrow> create_dir w r s = (Inl ValueError, s)"
  using load_config_error [of w "config_file r" e] by (simp add: create_dir_def)

text \<open>
  C5 (as the code has it). The zone in effect is the \<open>timezone\<close> argument when it is a
  non-empty string, else the zone of the configuration when that is a non-empty string.
  For a call whose configuration loads, \<open>UnknownTimeZoneError\<close> is raised exactly when
  the zone in effect is unknown to the time zone database, and then the file system is
  left as it was found: no parent directory, no target directory, no log entry.
\<close>

theorem unknown_timezone_no_side_effects:
  assumes "load_config w (config_file r) = Inr cfg"
  shows "(fst (create_dir w r s) = Inl UnknownTimeZoneError)
           = ((truthy (timezone r) \<and> pytz_timezone w (text_of (timezone r)) = None) \<or>
              (\<not> truthy (timezone r) \<and> truthy (config_timezone cfg) \<and>
               pytz_timezone w (text_of (config_timezone cfg)) = None))
         \<and> (fst (create_dir w r s) = Inl UnknownTimeZoneError \<longrightarrow>
              create_dir w r s = (Inl UnknownTimeZoneError, s))"
proof -
  have a: "set_timezone w (timezone r) cfg = Inl UnknownTimeZoneError
        \<Longrightarrow> create_dir w r s = (Inl UnknownTimeZoneError, s)"
    using assms by (simp add: create_dir_def)
  have b: "fst (create_dir w r s) = Inl UnknownTimeZoneError
        \<Longrightarrow> set_timezone w (timezone r) cfg = Inl UnknownTimeZoneError"
    by (rule create_dir_unknown_timezone [OF _ assms])
  from a b have "(fst (create_dir w r s) = Inl UnknownTimeZoneError)
      = (set_timezone w (timezone r) cfg = Inl UnknownTimeZoneError)" by auto
  with a b show ?thesis unfolding set_timezone_unknown by blast
qed

theorem unknown_timezone_no_side_effects_witness:
  "load_config example_world (config_file ((default_request ''data'')\<lparr>timezone := Some ''Mars/Phobos''\<rparr>))
     = Inr default_config
   \<and> truthy (timezone ((default_request ''data'')\<lparr>timezone := Some ''Mars/Phobos''\<rparr>))
   \<and> pytz_timezone example_world ''Mars/Phobos'' = None
   \<and> create_dir example_world ((default_request ''data'')\<lparr>timezone := Some ''Mars/Phobos''\<rparr>) empty_fs
       = (Inl UnknownTimeZoneError, empty_fs)"
proof -
  let ?r = "(default_request ''data'')\<lparr>timezone := Some ''Mars/Phobos''\<rparr>"
  have a: "load_config example_world (config_file ?r) = Inr default_config" by code_simp
  have b: "truthy (timezone ?r)" by code_simp
  have c: "pytz_timezone example_world (text_of (timezone ?r)) = None" by code_simp
  have d: "pytz_timezone example_world ''Mars/Phobos'' = None" by code_simp
  from unknown_timezone_no_side_effects [OF a, of empty_fs] b c
  have "create_dir example_world ?r empty_fs = (Inl UnknownTimeZoneError, empty_fs)" by blast
  with a b d show ?thesis by blast
qed

text \<open>
  The claim as stated (every invalid identifier, of the argument or of the
  configuration, raises the error) fails in three ways: an unknown zone in the
  configuration is not looked up when the argument names a zone, and the directory is
  made; the empty string as argument, itself unknown to the database, counts as no
  argument; and a malformed boolean in the settings raises \<open>ValueError\<close> before any
  zone is looked up.
\<close>

theorem configured_zone_not_looked_up_counterexample:
  "pytz_timezone (example_world\<lparr>ini_section := (\<lambda>f. Some [''timezone'' \<mapsto> ''Mars/Phobos''])\<rparr>) ''Mars/Phobos'' = None
   \<and> fst (create_dir (example_world\<lparr>ini_section := (\<lambda>f. Some [''timezone'' \<mapsto> ''Mars/Phobos''])\<rparr>)
            ((default_request ''data'')\<lparr>timezone := Some ''UTC''\<rparr>) empty_fs) = Inr [''1-data'']
   \<and> dirs (snd (create_dir (example_world\<lparr>ini_section := (\<lambda>f. Some [''timezone'' \<mapsto> ''Mars/Phobos''])\<rparr>)
            ((default_request ''data'')\<lparr>timezone := Some ''UTC''\<rparr>) empty_fs)) = [[''1-data'']]
   \<and> pytz_timezone example_world [] = None
   \<and> fst (create_dir example_world ((default_request ''data'')\<lparr>timezone := Some []\<rparr>) empty_fs) = Inr [''1-data'']
   \<and> fst (create_dir (example_world\<lparr>ini_section := (\<lambda>f. Some [''time_format_with_seconds'' \<mapsto> ''maybe''])\<rparr>)
            ((default_request ''data'')\<lparr>timezone := Some ''Mars/Phobos''\<rparr>) empty_fs) = Inl ValueError"
  by code_simp

end
